theory Spec2Isabelle
  imports Complex_Main "HOL-Library.AList"
begin

section \<open>JavaScript values\<close>

text \<open>
  The library is JavaScript. The values that reach the modelled code are the primitive
  values and references to arrays. A number is an IEEE double: the model keeps its
  special values (NaN, the two infinities, the negative zero) apart and takes a finite
  double as the real number it denotes (\<open>Fin 0\<close> is the positive zero). The modelled code
  only compares and selects numbers, it never rounds.
\<close>

datatype jsnum = NaN | NInf | Fin real | NegZero | PInf

datatype jsval =
    JUndefined
  | JNull
  | JBool bool
  | JNumber jsnum
  | JString string
  | JArray nat  \<comment> \<open>a reference to an array object: its address in the heap\<close>

text \<open>
  The keys of an \<open>IList\<close> are documented as strings. Two more values stand where a key is
  expected: \<open>undefined\<close>, the value of an omitted argument, and \<open>null\<close>, the initial
  \<open>most_recent_key\<close> and the default of \<open>removeData\<close>.
\<close>

datatype key = KUndefined | KNull | KString string

datatype error =
    Error string      \<comment> \<open>\<open>throw new Error(msg)\<close>\<close>
  | TypeError string  \<comment> \<open>\<open>throw new TypeError(msg)\<close>\<close>
  | NativeTypeError   \<comment> \<open>a TypeError of the engine itself; its message is the engine's\<close>

text \<open>Truthiness, as \<open>!x\<close>, \<open>if (x)\<close> and \<open>x || y\<close> read a value.\<close>

fun truthy_key :: "key \<Rightarrow> bool" where
  "truthy_key KUndefined = False"
| "truthy_key KNull = False"
| "truthy_key (KString s) = (s \<noteq> [])"

fun truthy :: "jsval \<Rightarrow> bool" where
  "truthy JUndefined = False"
| "truthy JNull = False"
| "truthy (JBool b) = b"
| "truthy (JNumber n) = (n \<noteq> NaN \<and> n \<noteq> Fin 0 \<and> n \<noteq> NegZero)"
| "truthy (JString s) = (s \<noteq> [])"
| "truthy (JArray a) = True"

definition js_zero :: jsval where
  "js_zero = JNumber (Fin 0)"

section \<open>The state: the array store and one IList instance\<close>

text \<open>
  Arrays are objects: \<open>get\<close>, \<open>rawGet\<close> and \<open>map\<close> hand out references to the stored
  arrays, \<open>rawSet\<close> stores whatever reference it is given and \<open>push\<close> mutates the stored
  array in place. So the arrays live in a heap, a list of arrays addressed by position,
  and a new array is allocated at the end. The JavaScript \<open>Map\<close> of the instance keeps its
  entries in insertion order: it is an association list, \<open>set\<close> is \<open>AList.update\<close>
  (replace in place, or add at the end) and \<open>delete\<close> is \<open>AList.delete\<close>.
  \<open>maxSize\<close> is whatever the constructor was given; the model takes a natural number
  (within the engine's limit on array lengths, which is not modelled).
\<close>

record state =
  heap :: "jsval list list"
  maxSize :: nat
  data :: "(key \<times> jsval) list"
  most_recent_key :: key

definition new_IList :: "nat \<Rightarrow> jsval list list \<Rightarrow> state" where
  \<comment> \<open>\<open>new IList(maxSize)\<close>, in a heap \<open>h\<close>\<close>
  "new_IList n h = \<lparr>heap = h, maxSize = n, data = [], most_recent_key = KNull\<rparr>"

text \<open>The array operations the class uses.\<close>

definition new_Array_fill :: "nat \<Rightarrow> jsval \<Rightarrow> state \<Rightarrow> nat \<times> state" where
  \<comment> \<open>\<open>new Array(n).fill(v)\<close>: the address of the new array, and the state holding it\<close>
  "new_Array_fill n v s = (length (heap s), s\<lparr>heap := heap s @ [replicate n v]\<rparr>)"

definition array_push :: "nat \<Rightarrow> jsval \<Rightarrow> state \<Rightarrow> state" where
  "array_push a v s = s\<lparr>heap := (heap s)[a := heap s ! a @ [v]]\<rparr>"

definition array_shift :: "nat \<Rightarrow> state \<Rightarrow> state" where
  "array_shift a s = s\<lparr>heap := (heap s)[a := tl (heap s ! a)]\<rparr>"

definition array_length :: "nat \<Rightarrow> state \<Rightarrow> nat" where
  "array_length a s = length (heap s ! a)"

text \<open>
  What an observer reads: the elements of an array value, and the sequence stored for
  a key (none when the key has no entry or its entry is not an array).
\<close>

definition elements :: "state \<Rightarrow> jsval \<Rightarrow> jsval list option" where
  "elements s v =
     (case v of
        JArray a \<Rightarrow> if a < length (heap s) then Some (heap s ! a) else None
      | _ \<Rightarrow> None)"

definition stored :: "state \<Rightarrow> key \<Rightarrow> jsval list option" where
  "stored s k = (case map_of (data s) k of None \<Rightarrow> None | Some v \<Rightarrow> elements s v)"

section \<open>The class IList\<close>

definition default_key :: "key \<Rightarrow> state \<Rightarrow> key" where
  \<comment> \<open>the default parameter \<open>key = this.most_recent_key\<close>: taken when the argument is \<open>undefined\<close>\<close>
  "default_key key s = (if key = KUndefined then most_recent_key s else key)"

definition get :: "key \<Rightarrow> state \<Rightarrow> jsval \<times> state" where
  "get key s =
     (let s1 = s\<lparr>most_recent_key := key\<rparr>;
          found = (case map_of (data s1) key of None \<Rightarrow> JUndefined | Some v \<Rightarrow> v)
      in if truthy found then (found, s1)
         else (let (a, s2) = new_Array_fill (maxSize s1) js_zero s1 in (JArray a, s2)))"

definition push :: "jsval \<Rightarrow> key \<Rightarrow> state \<Rightarrow> (error + unit) \<times> state" where
  "push v karg s =
     (let key = default_key karg s;
          s1 = s\<lparr>most_recent_key := key\<rparr>
      in if \<not> truthy_key (most_recent_key s1) \<and> \<not> truthy_key key
         then (Inl (Error ''Key must be provided or set before using set method.''), s1)
         else
           (case map_of (data s1) key of
              Some currentData \<Rightarrow>
                (case currentData of
                   JArray a \<Rightarrow>
                     (let s2 = array_push a v s1;
                          s3 = (if array_length a s2 > maxSize s2 then array_shift a s2 else s2)
                      in (Inr (), s3\<lparr>data := AList.update key currentData (data s3)\<rparr>))
                 | _ \<Rightarrow> (Inl NativeTypeError, s1))
            | None \<Rightarrow>
                (let (a, s2) = new_Array_fill (maxSize s1) js_zero s1;
                     s3 = s2\<lparr>data := AList.update key (JArray a) (data s2)\<rparr>
                 in (case map_of (data s3) key of
                       Some (JArray b) \<Rightarrow> (Inr (), array_push b v s3)
                     | _ \<Rightarrow> (Inl NativeTypeError, s3)))))"

definition removeData :: "key \<Rightarrow> state \<Rightarrow> bool option \<times> state" where
  \<comment> \<open>the result is \<open>Some b\<close> for the boolean of \<open>Map.delete\<close>, \<open>None\<close> for \<open>undefined\<close>\<close>
  "removeData karg s =
     (let key = (if karg = KUndefined then KNull else karg)
      in if truthy_key key
         then (Some (map_of (data s) key \<noteq> None), s\<lparr>data := AList.delete key (data s)\<rparr>)
         else (None, s\<lparr>data := []\<rparr>))"

definition has :: "key \<Rightarrow> state \<Rightarrow> error + bool" where
  "has karg s =
     (let key = default_key karg s
      in if \<not> truthy_key key \<and> \<not> truthy_key (most_recent_key s)
         then Inl (Error ''Key must be provided or set before using has method.'')
         else Inr (map_of (data s) (if truthy_key key then key else most_recent_key s) \<noteq> None))"

definition js_length :: "jsval \<Rightarrow> state \<Rightarrow> error + jsval" where
  \<comment> \<open>the property read \<open>x.length\<close>\<close>
  "js_length x s =
     (case x of
        JArray a \<Rightarrow> Inr (JNumber (Fin (real (array_length a s))))
      | JString str \<Rightarrow> Inr (JNumber (Fin (real (length str))))
      | JUndefined \<Rightarrow> Inl NativeTypeError
      | JNull \<Rightarrow> Inl NativeTypeError
      | _ \<Rightarrow> Inr JUndefined)"

definition getSize :: "key \<Rightarrow> state \<Rightarrow> error + jsval" where
  "getSize karg s =
     (let key = default_key karg s
      in if \<not> truthy_key key \<and> \<not> truthy_key (most_recent_key s)
         then Inl (Error ''Key must be provided or set before using getSize method.'')
         else (case map_of (data s) key of
                 Some x \<Rightarrow> js_length x s
               | None \<Rightarrow> Inr (JNumber (Fin 0))))"

definition map_IList :: "state \<Rightarrow> (key \<times> jsval) list" where
  \<comment> \<open>\<open>map()\<close>: the underlying Map\<close>
  "map_IList s = data s"

definition rawGet :: "key \<Rightarrow> state \<Rightarrow> jsval" where
  "rawGet key s = (case map_of (data s) key of None \<Rightarrow> JUndefined | Some v \<Rightarrow> v)"

definition rawSet :: "key \<Rightarrow> jsval \<Rightarrow> state \<Rightarrow> state" where
  "rawSet key v s = s\<lparr>data := AList.update key v (data s)\<rparr>"

definition clear :: "state \<Rightarrow> state" where
  "clear s = s\<lparr>data := [], most_recent_key := KNull\<rparr>"

definition getMostRecentKey :: "state \<Rightarrow> key" where
  "getMostRecentKey s = most_recent_key s"

section \<open>MathUtils.clamp\<close>

text \<open>
  \<open>typeof\<close>, the comparison \<open><\<close> of two numbers (false as soon as one is NaN, and the two
  zeros are equal), and \<open>Math.max\<close> and \<open>Math.min\<close> of two numbers (NaN if one is NaN, and
  the positive zero is the larger zero).
\<close>

fun js_typeof :: "jsval \<Rightarrow> string" where
  "js_typeof JUndefined = ''undefined''"
| "js_typeof JNull = ''object''"
| "js_typeof (JBool b) = ''boolean''"
| "js_typeof (JNumber n) = ''number''"
| "js_typeof (JString s) = ''string''"
| "js_typeof (JArray a) = ''object''"

fun js_lt :: "jsnum \<Rightarrow> jsnum \<Rightarrow> bool" where
  "js_lt NaN b = False"
| "js_lt a NaN = False"
| "js_lt a NInf = False"
| "js_lt NInf b = True"
| "js_lt PInf b = False"
| "js_lt a PInf = True"
| "js_lt (Fin x) (Fin y) = (x < y)"
| "js_lt (Fin x) NegZero = (x < 0)"
| "js_lt NegZero (Fin y) = (0 < y)"
| "js_lt NegZero NegZero = False"

definition js_gt :: "jsnum \<Rightarrow> jsnum \<Rightarrow> bool" where
  "js_gt a b = js_lt b a"

definition js_le :: "jsnum \<Rightarrow> jsnum \<Rightarrow> bool" where
  \<comment> \<open>\<open>a <= b\<close>\<close>
  "js_le a b = (a \<noteq> NaN \<and> b \<noteq> NaN \<and> \<not> js_lt b a)"

definition js_eq :: "jsnum \<Rightarrow> jsnum \<Rightarrow> bool" where
  \<comment> \<open>\<open>a == b\<close> on numbers: equal as numbers, so the two zeros are equal\<close>
  "js_eq a b = (js_le a b \<and> js_le b a)"

definition Math_max :: "jsnum \<Rightarrow> jsnum \<Rightarrow> jsnum" where
  "Math_max a b =
     (if a = NaN \<or> b = NaN then NaN
      else if js_lt a b then b
      else if js_lt b a then a
      else if a = NegZero then b else a)"

definition Math_min :: "jsnum \<Rightarrow> jsnum \<Rightarrow> jsnum" where
  "Math_min a b =
     (if a = NaN \<or> b = NaN then NaN
      else if js_lt a b then a
      else if js_lt b a then b
      else if a = NegZero then a else b)"

fun number_of :: "jsval \<Rightarrow> jsnum" where
  \<comment> \<open>the double of a value whose \<open>typeof\<close> is number; \<open>clamp\<close> reads no other value as a number\<close>
  "number_of (JNumber n) = n"
| "number_of _ = NaN"

definition js_isNaN :: "jsnum \<Rightarrow> bool" where
  \<comment> \<open>\<open>isNaN(x)\<close> for \<open>x\<close> a number\<close>
  "js_isNaN n = (n = NaN)"

definition clamp :: "jsval \<Rightarrow> jsval \<Rightarrow> jsval \<Rightarrow> error + jsval" where
  "clamp val mn mx =
     (if js_typeof val \<noteq> ''number'' \<or> js_typeof mn \<noteq> ''number'' \<or> js_typeof mx \<noteq> ''number''
      then Inl (TypeError ''All parameters must be numbers.'')
      else if js_isNaN (number_of val) \<or> js_isNaN (number_of mn) \<or> js_isNaN (number_of mx)
      then Inl (Error ''Parameters cannot be NaN.'')
      else if js_gt (number_of mn) (number_of mx)
      then Inl (Error ''Minimum value cannot be greater than maximum value.'')
      else Inr (JNumber (Math_max (number_of mn) (Math_min (number_of mx) (number_of val)))))"

section \<open>Calls in sequence\<close>

text \<open>
  A client calls the methods one after the other; a call that throws leaves the state as
  it was when it threw, and the client may go on. \<open>step\<close> is the state after one call and
  \<open>run\<close> the state after a list of calls.
\<close>

datatype call =
    Get key
  | Push jsval key
  | RemoveData key
  | Has key
  | GetSize key
  | MapCall
  | RawGet key
  | RawSet key jsval
  | Clear
  | GetMostRecentKey

fun step :: "call \<Rightarrow> state \<Rightarrow> state" where
  "step (Get k) s = snd (get k s)"
| "step (Push v k) s = snd (push v k s)"
| "step (RemoveData k) s = snd (removeData k s)"
| "step (Has k) s = s"
| "step (GetSize k) s = s"
| "step MapCall s = s"
| "step (RawGet k) s = s"
| "step (RawSet k v) s = rawSet k v s"
| "step Clear s = clear s"
| "step GetMostRecentKey s = s"

fun run :: "call list \<Rightarrow> state \<Rightarrow> state" where
  "run [] s = s"
| "run (c # cs) s = run cs (step c s)"

fun is_RawSet :: "call \<Rightarrow> bool" where
  "is_RawSet (RawSet k v) = True"
| "is_RawSet _ = False"

text \<open>
  The invariant of the states reached without \<open>rawSet\<close>, for an instance of capacity \<open>n\<close>:
  every entry has a truthy key and holds an array of the heap with \<open>n + 1\<close> elements, and no
  two keys hold the same array.
\<close>

definition entry_ok :: "nat \<Rightarrow> jsval list list \<Rightarrow> jsval \<Rightarrow> bool" where
  "entry_ok n h x = (\<exists>a. x = JArray a \<and> a < length h \<and> length (h ! a) = n + 1)"

definition ilist_inv :: "nat \<Rightarrow> state \<Rightarrow> bool" where
  "ilist_inv n s =
     (maxSize s = n
      \<and> (\<forall>k x. map_of (data s) k = Some x \<longrightarrow> truthy_key k \<and> entry_ok n (heap s) x)
      \<and> (\<forall>k k' x. map_of (data s) k = Some x \<and> map_of (data s) k' = Some x \<longrightarrow> k = k'))"

text \<open>
  For one key \<open>k\<close>: the calls that write its entry raw, the calls that remove its entry
  (\<open>removeData\<close> of \<open>k\<close>, \<open>removeData\<close> of a falsy key or of none, which empties the Map, and
  \<open>clear\<close>), and the invariant of the states reached without a \<open>rawSet\<close> of \<open>k\<close>, for an
  instance of capacity \<open>n\<close>: if \<open>k\<close> has an entry, \<open>k\<close> is truthy and the entry is an array of
  the heap with \<open>n + 1\<close> elements. Raw writes to other keys are allowed, also those that
  store the array of \<open>k\<close> under another key.
\<close>

fun is_RawSet_of :: "key \<Rightarrow> call \<Rightarrow> bool" where
  "is_RawSet_of k (RawSet k' v) = (k' = k)"
| "is_RawSet_of k _ = False"

fun is_removal_of :: "key \<Rightarrow> call \<Rightarrow> bool" where
  "is_removal_of k (RemoveData k') = (\<not> truthy_key k' \<or> k' = k)"
| "is_removal_of k Clear = True"
| "is_removal_of k _ = False"

definition key_inv :: "nat \<Rightarrow> key \<Rightarrow> state \<Rightarrow> bool" where
  "key_inv n k s =
     (maxSize s = n
      \<and> (\<forall>x. map_of (data s) k = Some x \<longrightarrow> truthy_key k \<and> entry_ok n (heap s) x))"

text \<open>
  The last-used key as the calls determine it: the key of the most recent \<open>get\<close>, or of the
  most recent \<open>push\<close> that names one; \<open>clear\<close> sets it back to \<open>null\<close>, and no other call
  touches it.
\<close>

fun last_key :: "call list \<Rightarrow> key \<Rightarrow> key" where
  "last_key [] k0 = k0"
| "last_key (Get k # cs) k0 = last_key cs k"
| "last_key (Push v k # cs) k0 = last_key cs (if k = KUndefined then k0 else k)"
| "last_key (Clear # cs) k0 = last_key cs KNull"
| "last_key (c # cs) k0 = last_key cs k0"

section \<open>Properties of IList\<close>

lemmas ilist_defs =
  new_IList_def new_Array_fill_def array_push_def array_shift_def array_length_def
  elements_def stored_def default_key_def get_def push_def removeData_def has_def
  js_length_def getSize_def map_IList_def rawGet_def rawSet_def clear_def
  getMostRecentKey_def js_zero_def

lemma push_falsy:
  "\<not> truthy_key (default_key karg s) \<Longrightarrow>
   push v karg s = (Inl (Error ''Key must be provided or set before using set method.''),
                    s\<lparr>most_recent_key := default_key karg s\<rparr>)"
  by (simp add: push_def Let_def)

lemma push_new:
  "truthy_key (default_key karg s) \<Longrightarrow> map_of (data s) (default_key karg s) = None \<Longrightarrow>
   push v karg s =
     (Inr (), s\<lparr>heap := heap s @ [replicate (maxSize s) js_zero @ [v]],
                data := AList.update (default_key karg s) (JArray (length (heap s))) (data s),
                most_recent_key := default_key karg s\<rparr>)"
  by (simp add: push_def Let_def new_Array_fill_def array_push_def AList.update_conv')

lemma push_existing:
  "truthy_key (default_key karg s) \<Longrightarrow> map_of (data s) (default_key karg s) = Some (JArray a) \<Longrightarrow>
   a < length (heap s) \<Longrightarrow>
   push v karg s =
     (Inr (), s\<lparr>heap := (heap s)[a := (if maxSize s < length (heap s ! a) + 1
                                         then tl (heap s ! a @ [v]) else heap s ! a @ [v])],
                most_recent_key := default_key karg s\<rparr>)"
  by (simp add: push_def Let_def array_push_def array_shift_def array_length_def AList.update_triv)

lemma push_not_array:
  "truthy_key (default_key karg s) \<Longrightarrow> map_of (data s) (default_key karg s) = Some x \<Longrightarrow>
   \<forall>a. x \<noteq> JArray a \<Longrightarrow>
   push v karg s = (Inl NativeTypeError, s\<lparr>most_recent_key := default_key karg s\<rparr>)"
  by (cases x) (simp_all add: push_def Let_def)

lemma entry_ok_append: "entry_ok n h x \<Longrightarrow> entry_ok n (h @ [xs]) x"
  by (auto simp add: entry_ok_def nth_append)

lemma entry_ok_update:
  "entry_ok n h x \<Longrightarrow> b < length h \<Longrightarrow> length ys = n + 1 \<Longrightarrow> entry_ok n (h[b := ys]) x"
  by (auto simp add: entry_ok_def nth_list_update)

lemma entry_ok_truthy: "entry_ok n h x \<Longrightarrow> truthy x"
  by (auto simp add: entry_ok_def)

lemma inv_new: "ilist_inv n (new_IList n h)"
  by (simp add: ilist_inv_def new_IList_def)

lemma inv_mrk: "ilist_inv n s \<Longrightarrow> ilist_inv n (s\<lparr>most_recent_key := k\<rparr>)"
  by (simp add: ilist_inv_def)

lemma inv_alloc: "ilist_inv n s \<Longrightarrow> ilist_inv n (s\<lparr>heap := heap s @ [xs]\<rparr>)"
  by (auto simp add: ilist_inv_def intro: entry_ok_append)

lemma inv_get: 
  assumes "ilist_inv n s" shows "ilist_inv n (snd (get k s))"
proof (cases "map_of (data s) k")
  case None
  then have "snd (get k s) = s\<lparr>most_recent_key := k, heap := heap s @ [replicate (maxSize s) js_zero]\<rparr>"
    by (simp add: get_def new_Array_fill_def)
  with assms show ?thesis
    using inv_alloc[OF inv_mrk[OF assms, of k], of "replicate (maxSize s) js_zero"] by simp
next
  case (Some x)
  with assms have "truthy x" by (auto simp add: ilist_inv_def dest: entry_ok_truthy)
  with Some have "snd (get k s) = s\<lparr>most_recent_key := k\<rparr>"
    by (simp add: get_def)
  with assms show ?thesis by (simp add: inv_mrk)
qed

lemma inv_clear: "ilist_inv n s \<Longrightarrow> ilist_inv n (clear s)"
  by (simp add: ilist_inv_def clear_def)

lemma inv_removeData: "ilist_inv n s \<Longrightarrow> ilist_inv n (snd (removeData k s))"
  by (auto simp add: ilist_inv_def removeData_def Let_def AList.delete_conv' split: if_splits)

lemma inv_push:
  assumes "ilist_inv n s" shows "ilist_inv n (snd (push v karg s))"
proof (cases "truthy_key (default_key karg s)")
  case False
  then show ?thesis using assms by (simp add: push_falsy inv_mrk)
next
  case True
  show ?thesis
  proof (cases "map_of (data s) (default_key karg s)")
    case None
    have fresh: "\<And>k. map_of (data s) k \<noteq> Some (JArray (length (heap s)))"
      using assms by (auto simp add: ilist_inv_def entry_ok_def)
    have new: "entry_ok n (heap s @ [replicate n js_zero @ [v]]) (JArray (length (heap s)))"
      by (simp add: entry_ok_def)
    from assms True None fresh new show ?thesis
      by (auto simp add: push_new ilist_inv_def AList.update_conv' intro: entry_ok_append)
  next
    case (Some x)
    with assms obtain a where a: "x = JArray a" "a < length (heap s)" "length (heap s ! a) = n + 1"
      by (auto simp add: ilist_inv_def entry_ok_def)
    have n: "maxSize s = n" using assms by (simp add: ilist_inv_def)
    have len: "length (tl (heap s ! a @ [v])) = n + 1" using a by simp
    have "snd (push v karg s) = s\<lparr>heap := (heap s)[a := tl (heap s ! a @ [v])],
                most_recent_key := default_key karg s\<rparr>"
      using True Some a n by (simp add: push_existing)
    with assms a len show ?thesis
      by (auto simp add: ilist_inv_def intro: entry_ok_update)
  qed
qed

lemma inv_step: "\<not> is_RawSet c \<Longrightarrow> ilist_inv n s \<Longrightarrow> ilist_inv n (step c s)"
  by (cases c) (simp_all add: inv_get inv_push inv_removeData inv_clear)

lemma inv_run: "list_all (\<lambda>c. \<not> is_RawSet c) cs \<Longrightarrow> ilist_inv n s \<Longrightarrow> ilist_inv n (run cs s)"
  by (induction cs arbitrary: s) (simp_all add: inv_step)

lemma stored_push_new:
  assumes "truthy_key (default_key karg s)" and "map_of (data s) (default_key karg s) = None"
  shows "stored (snd (push v karg s)) (default_key karg s) = Some (replicate (maxSize s) js_zero @ [v])"
  using assms by (simp add: push_new stored_def elements_def AList.update_conv')

lemma stored_push_existing:
  assumes "truthy_key (default_key karg s)"
    and "map_of (data s) (default_key karg s) = Some (JArray a)" and "a < length (heap s)"
  shows "stored (snd (push v karg s)) (default_key karg s) =
           Some (if maxSize s < length (heap s ! a) + 1 then tl (heap s ! a @ [v]) else heap s ! a @ [v])"
  using assms by (simp add: push_existing stored_def elements_def)

lemma mrk_get: "most_recent_key (snd (get k s)) = k"
  by (simp add: get_def Let_def new_Array_fill_def)

lemma mrk_push: "most_recent_key (snd (push v k s)) = default_key k s"
proof (cases "truthy_key (default_key k s)")
  case False
  then show ?thesis by (simp add: push_falsy)
next
  case True
  show ?thesis
  proof (cases "map_of (data s) (default_key k s)")
    case None
    with True show ?thesis by (simp add: push_new)
  next
    case (Some x)
    with True show ?thesis
      by (cases x) (simp_all add: push_def Let_def array_push_def array_shift_def)
  qed
qed

lemma mrk_removeData: "most_recent_key (snd (removeData k s)) = most_recent_key s"
  by (simp add: removeData_def Let_def)

lemma mrk_step: "most_recent_key (step c s) = last_key [c] (most_recent_key s)"
  by (cases c) (simp_all add: mrk_get mrk_push mrk_removeData rawSet_def clear_def default_key_def)

lemma last_key_step: "last_key (c # cs) k0 = last_key cs (last_key [c] k0)"
  by (cases c) simp_all

lemma mrk_run: "most_recent_key (run cs s) = last_key cs (most_recent_key s)"
proof (induction cs arbitrary: s)
  case Nil
  show ?case by simp
next
  case (Cons c cs)
  have "most_recent_key (run (c # cs) s) = last_key cs (most_recent_key (step c s))"
    using Cons.IH[of "step c s"] by simp
  also have "\<dots> = last_key (c # cs) (most_recent_key s)"
    by (simp add: mrk_step last_key_step[of c cs])
  finally show ?case .
qed

lemma default_key_truthy: "truthy_key k \<Longrightarrow> default_key k s = k"
  by (cases k) (simp_all add: default_key_def)

lemma get_absent:
  "map_of (data s) k = None \<Longrightarrow>
   get k s = (JArray (length (heap s)),
              s\<lparr>heap := heap s @ [replicate (maxSize s) js_zero], most_recent_key := k\<rparr>)"
  by (simp add: get_def new_Array_fill_def)

lemma removeData_truthy:
  "truthy_key k \<Longrightarrow>
   removeData k s = (Some (map_of (data s) k \<noteq> None), s\<lparr>data := AList.delete k (data s)\<rparr>)"
  by (cases k) (simp_all add: removeData_def Let_def)

lemma removeData_falsy:
  "\<not> truthy_key k \<Longrightarrow> removeData k s = (None, s\<lparr>data := []\<rparr>)"
  by (cases k) (simp_all add: removeData_def Let_def)

lemma push_data_other:
  assumes "k1 \<noteq> default_key karg s"
  shows "map_of (data (snd (push v karg s))) k1 = map_of (data s) k1"
proof (cases "truthy_key (default_key karg s)")
  case False
  then show ?thesis by (simp add: push_falsy)
next
  case True
  show ?thesis
  proof (cases "map_of (data s) (default_key karg s)")
    case None
    with True assms show ?thesis by (simp add: push_new AList.update_conv')
  next
    case (Some x)
    with True assms show ?thesis
      by (cases x)
        (simp_all add: push_def Let_def array_push_def array_shift_def AList.update_conv')
  qed
qed

lemma push_heap_other:
  assumes "a < length (heap s)"
    and "map_of (data s) (default_key karg s) \<noteq> Some (JArray a)"
  shows "a < length (heap (snd (push v karg s))) \<and> heap (snd (push v karg s)) ! a = heap s ! a"
proof (cases "truthy_key (default_key karg s)")
  case False
  with assms show ?thesis by (simp add: push_falsy)
next
  case True
  show ?thesis
  proof (cases "map_of (data s) (default_key karg s)")
    case None
    with True assms show ?thesis by (simp add: push_new nth_append)
  next
    case (Some x)
    with True assms show ?thesis
      by (cases x)
        (auto simp add: push_def Let_def array_push_def array_shift_def array_length_def)
  qed
qed

lemma push_frame:
  assumes "k1 \<noteq> default_key karg s"
    and "\<forall>a. map_of (data s) k1 = Some (JArray a) \<longrightarrow>
           a < length (heap s) \<and> map_of (data s) (default_key karg s) \<noteq> Some (JArray a)"
  shows "map_of (data (snd (push v karg s))) k1 = map_of (data s) k1
       \<and> stored (snd (push v karg s)) k1 = stored s k1"
proof -
  have d: "map_of (data (snd (push v karg s))) k1 = map_of (data s) k1"
    using assms(1) by (rule push_data_other)
  have "stored (snd (push v karg s)) k1 = stored s k1"
  proof (cases "map_of (data s) k1")
    case None
    with d show ?thesis by (simp add: stored_def)
  next
    case (Some x)
    show ?thesis
    proof (cases x)
      case (JArray a)
      with Some assms(2) have a: "a < length (heap s)"
        and na: "map_of (data s) (default_key karg s) \<noteq> Some (JArray a)" by auto
      from push_heap_other[OF a na, of v] a Some JArray d show ?thesis
        by (simp add: stored_def elements_def)
    qed (use Some d in \<open>simp_all add: stored_def elements_def\<close>)
  qed
  with d show ?thesis by simp
qed

lemma inv_no_alias:
  assumes "ilist_inv n s" and "k1 \<noteq> k2"
  shows "\<forall>a. map_of (data s) k1 = Some (JArray a) \<longrightarrow>
           a < length (heap s) \<and> map_of (data s) k2 \<noteq> Some (JArray a)"
  using assms unfolding ilist_inv_def entry_ok_def by (metis jsval.inject(4))

lemma key_inv_new: "key_inv n k (new_IList n h)"
  by (simp add: key_inv_def new_IList_def)

lemma key_inv_get: "key_inv n k s \<Longrightarrow> key_inv n k (snd (get k' s))"
  by (auto simp add: key_inv_def get_def Let_def new_Array_fill_def intro: entry_ok_append)

lemma key_inv_clear: "key_inv n k s \<Longrightarrow> key_inv n k (clear s)"
  by (simp add: key_inv_def clear_def)

lemma key_inv_removeData: "key_inv n k s \<Longrightarrow> key_inv n k (snd (removeData k' s))"
  by (auto simp add: key_inv_def removeData_def Let_def AList.delete_conv' split: if_splits)

lemma key_inv_rawSet: "k' \<noteq> k \<Longrightarrow> key_inv n k s \<Longrightarrow> key_inv n k (rawSet k' v s)"
  by (simp add: key_inv_def rawSet_def AList.update_conv')

lemma maxSize_push: "maxSize (snd (push v karg s)) = maxSize s"
proof (cases "truthy_key (default_key karg s)")
  case False
  then show ?thesis by (simp add: push_falsy)
next
  case True
  show ?thesis
  proof (cases "map_of (data s) (default_key karg s)")
    case None
    with True show ?thesis by (simp add: push_new)
  next
    case (Some x)
    with True show ?thesis
      by (cases x) (simp_all add: push_def Let_def array_push_def array_shift_def)
  qed
qed

lemma key_inv_push:
  assumes "key_inv n k s" shows "key_inv n k (snd (push v karg s))"
proof -
  let ?t = "default_key karg s"
  let ?s' = "snd (push v karg s)"
  have n: "maxSize s = n" using assms by (simp add: key_inv_def)
  have m: "maxSize ?s' = n" using n by (simp add: maxSize_push)
  have "truthy_key k \<and> entry_ok n (heap ?s') x" if x: "map_of (data ?s') k = Some x" for x
  proof (cases "map_of (data s) k")
    case None
    have tk: "?t = k"
    proof (rule ccontr)
      assume "?t \<noteq> k"
      then have "map_of (data ?s') k = map_of (data s) k" by (simp add: push_data_other)
      with None x show False by simp
    qed
    have tr: "truthy_key k"
    proof (rule ccontr)
      assume "\<not> truthy_key k"
      with tk have "?s' = s\<lparr>most_recent_key := ?t\<rparr>" by (simp add: push_falsy)
      with None x show False by simp
    qed
    from tr tk None have "?s' = s\<lparr>heap := heap s @ [replicate (maxSize s) js_zero @ [v]],
                data := AList.update k (JArray (length (heap s))) (data s),
                most_recent_key := k\<rparr>"
      using push_new[of karg s v] by simp
    with x n tr show ?thesis by (auto simp add: AList.update_conv' entry_ok_def)
  next
    case (Some y)
    with assms obtain a where a: "y = JArray a" "a < length (heap s)" "length (heap s ! a) = n + 1"
      and tr: "truthy_key k"
      by (auto simp add: key_inv_def entry_ok_def)
    show ?thesis
    proof (cases "truthy_key ?t")
      case False
      then have "?s' = s\<lparr>most_recent_key := ?t\<rparr>" by (simp add: push_falsy)
      with x Some a tr show ?thesis by (auto simp add: entry_ok_def)
    next
      case True
      show ?thesis
      proof (cases "map_of (data s) ?t = Some (JArray a)")
        case shared: True
        have "?s' = s\<lparr>heap := (heap s)[a := tl (heap s ! a @ [v])], most_recent_key := ?t\<rparr>"
          using push_existing[OF True shared a(2), of v] a n by simp
        with x Some a tr show ?thesis by (auto simp add: entry_ok_def)
      next
        case apart: False
        with Some a have "?t \<noteq> k" by auto
        then have d: "map_of (data ?s') k = map_of (data s) k" by (simp add: push_data_other)
        from push_heap_other[OF a(2) apart, of v] x d Some a tr show ?thesis
          by (auto simp add: entry_ok_def)
      qed
    qed
  qed
  with m show ?thesis by (simp add: key_inv_def)
qed

lemma key_inv_step: "\<not> is_RawSet_of k c \<Longrightarrow> key_inv n k s \<Longrightarrow> key_inv n k (step c s)"
  by (cases c) (simp_all add: key_inv_get key_inv_push key_inv_removeData key_inv_clear key_inv_rawSet)

lemma key_inv_run:
  "list_all (\<lambda>c. \<not> is_RawSet_of k c) cs \<Longrightarrow> key_inv n k s \<Longrightarrow> key_inv n k (run cs s)"
  by (induction cs arbitrary: s) (simp_all add: key_inv_step)

lemma entry_stays_push:
  assumes "map_of (data s) k \<noteq> None"
  shows "map_of (data (snd (push v karg s))) k \<noteq> None"
proof (cases "truthy_key (default_key karg s)")
  case False
  with assms show ?thesis by (simp add: push_falsy)
next
  case True
  show ?thesis
  proof (cases "map_of (data s) (default_key karg s)")
    case None
    with True assms show ?thesis by (simp add: push_new AList.update_conv')
  next
    case (Some x)
    with True assms show ?thesis
      by (cases x)
        (simp_all add: push_def Let_def array_push_def array_shift_def AList.update_conv')
  qed
qed

lemma entry_stays_step:
  assumes "\<not> is_removal_of k c" and "map_of (data s) k \<noteq> None"
  shows "map_of (data (step c s)) k \<noteq> None"
proof (cases c)
  case (Get k')
  with assms show ?thesis by (simp add: get_def Let_def new_Array_fill_def)
next
  case (Push v karg)
  with assms show ?thesis by (simp add: entry_stays_push)
next
  case (RemoveData k')
  with assms show ?thesis by (auto simp add: removeData_truthy AList.delete_conv')
next
  case (RawSet k' v)
  with assms show ?thesis by (simp add: rawSet_def AList.update_conv')
qed (use assms in simp_all)

lemma entry_stays_run:
  "list_all (\<lambda>c. \<not> is_removal_of k c) cs \<Longrightarrow> map_of (data s) k \<noteq> None
   \<Longrightarrow> map_of (data (run cs s)) k \<noteq> None"
proof (induction cs arbitrary: s)
  case Nil
  then show ?case by simp
next
  case (Cons c cs)
  from Cons.prems have "map_of (data (step c s)) k \<noteq> None"
    by (intro entry_stays_step) simp_all
  with Cons.prems Cons.IH[of "step c s"] show ?case by simp
qed

lemma entry_after_push:
  assumes "truthy_key (default_key karg s)" and "fst (push v karg s) = Inr ()"
  shows "map_of (data (snd (push v karg s))) (default_key karg s) \<noteq> None"
proof (cases "map_of (data s) (default_key karg s)")
  case None
  with assms show ?thesis by (simp add: push_new AList.update_conv')
next
  case (Some x)
  then show ?thesis by (simp add: entry_stays_push)
qed

lemma key_inv_size:
  assumes "key_inv n k s" and "map_of (data s) k \<noteq> None"
  shows "(\<exists>xs. stored s k = Some xs \<and> length xs = n + 1)
         \<and> getSize k s = Inr (JNumber (Fin (real (n + 1))))"
proof -
  from assms(2) obtain x where x: "map_of (data s) k = Some x" by auto
  with assms(1) obtain a where a: "x = JArray a" "a < length (heap s)" "length (heap s ! a) = n + 1"
    and tr: "truthy_key k"
    by (auto simp add: key_inv_def entry_ok_def)
  from tr have "default_key k s = k" by (rule default_key_truthy)
  with x a tr show ?thesis
    by (simp add: stored_def elements_def getSize_def js_length_def array_length_def)
qed

lemma key_inv_push_new:
  assumes "key_inv n k s" and "default_key karg s = k" and "truthy_key k" and "map_of (data s) k = None"
  shows "fst (push v karg s) = Inr ()
         \<and> stored (snd (push v karg s)) k = Some (replicate n js_zero @ [v])"
proof -
  from assms(1) have "maxSize s = n" by (simp add: key_inv_def)
  with assms(2-4) stored_push_new[of karg s v] show ?thesis by (simp add: push_new)
qed

lemma key_inv_push_existing:
  assumes "key_inv n k s" and "default_key karg s = k" and "map_of (data s) k \<noteq> None"
  shows "fst (push v karg s) = Inr ()
         \<and> (\<exists>xs. stored s k = Some xs \<and> stored (snd (push v karg s)) k = Some (tl (xs @ [v])))"
proof -
  from assms(3) obtain x where x: "map_of (data s) k = Some x" by auto
  with assms(1) obtain a where a: "x = JArray a" "a < length (heap s)" "length (heap s ! a) = n + 1"
    and tr: "truthy_key k" and n: "maxSize s = n"
    by (auto simp add: key_inv_def entry_ok_def)
  from assms(2) x a n tr show ?thesis
    using stored_push_existing[of karg s a v]
    by (simp add: push_existing stored_def elements_def)
qed

lemma run_append: "run (cs @ ds) s = run ds (run cs s)"
  by (induction cs arbitrary: s) simp_all

lemma list_all_Push: "list_all (\<lambda>c. \<not> is_RawSet c) (map (\<lambda>v. Push v k) vs)"
  by (induction vs) simp_all

lemma tl_drop_snoc: "m < length A \<Longrightarrow> tl (drop m A @ [v]) = drop (Suc m) (A @ [v])"
proof -
  assume m: "m < length A"
  then have "drop m A \<noteq> []" by simp
  then have "tl (drop m A @ [v]) = tl (drop m A) @ [v]" by (cases "drop m A") simp_all
  also have "\<dots> = drop (Suc m) A @ [v]" by (simp add: drop_Suc tl_drop)
  also have "\<dots> = drop (Suc m) (A @ [v])" using m by simp
  finally show ?thesis .
qed

text \<open>
  The sequence stored after pushing the values \<open>vs\<close>, one after the other, to a truthy key
  of a new instance of capacity \<open>n\<close>: the last \<open>n + 1\<close> elements of \<open>n\<close> zeros followed by
  \<open>vs\<close>. Once more than \<open>n\<close> values are pushed these are the last \<open>n + 1\<close> values.
\<close>

lemma stored_after_pushes:
  assumes "truthy_key k" and "vs \<noteq> []"
  shows "stored (run (map (\<lambda>v. Push v k) vs) (new_IList n h)) k
         = Some (drop (length vs - 1) (replicate n js_zero @ vs))"
  using assms(2)
proof (induction vs rule: rev_induct)
  case Nil
  then show ?case by simp
next
  case (snoc v vs)
  let ?s = "run (map (\<lambda>v. Push v k) vs) (new_IList n h)"
  have k: "default_key k ?s = k" using assms(1) by (rule default_key_truthy)
  have inv: "ilist_inv n ?s"
    by (rule inv_run[OF list_all_Push inv_new])
  then have n: "maxSize ?s = n" by (simp add: ilist_inv_def)
  show ?case
  proof (cases "vs = []")
    case True
    then have "map_of (data ?s) k = None" by (simp add: new_IList_def)
    with stored_push_new[of k ?s v] assms(1) k n True show ?thesis
      by (simp add: run_append)
  next
    case False
    with snoc.IH have st: "stored ?s k = Some (drop (length vs - 1) (replicate n js_zero @ vs))"
      by simp
    then obtain x where x: "map_of (data ?s) k = Some x"
      by (auto simp add: stored_def split: option.splits)
    with inv obtain a where a: "x = JArray a" "a < length (heap ?s)" "length (heap ?s ! a) = n + 1"
      by (auto simp add: ilist_inv_def entry_ok_def)
    with st x have h: "heap ?s ! a = drop (length vs - 1) (replicate n js_zero @ vs)"
      by (simp add: stored_def elements_def)
    from False have len: "0 < length vs" by simp
    have "stored (snd (push v k ?s)) k = Some (tl (heap ?s ! a @ [v]))"
      using stored_push_existing[of k ?s a v] assms(1) k x a n by simp
    also have "tl (heap ?s ! a @ [v]) = drop (Suc (length vs - 1)) ((replicate n js_zero @ vs) @ [v])"
      unfolding h using len by (intro tl_drop_snoc) (simp add: less_imp_diff_less trans_less_add2)
    finally show ?thesis using len by (simp add: run_append)
  qed
qed

lemma stored_after_many_pushes:
  assumes "truthy_key k" and "n < length vs"
  shows "stored (run (map (\<lambda>v. Push v k) vs) (new_IList n h)) k
         = Some (drop (length vs - (n + 1)) vs)"
proof -
  from assms(2) have "vs \<noteq> []" by auto
  with assms show ?thesis by (simp add: stored_after_pushes)
qed

text \<open>
  C1. The claim: after one push to a key with no entry, \<open>getSize\<close> of the key is the
  capacity. The code does not do that: the first push fills a new array with
  \<open>maxSize\<close> zeros and appends the value without trimming, so the size is the capacity
  plus one. With capacity 5, one push of \<open>"value1"\<close> to \<open>"key1"\<close> gives size 6, and the
  stored array is five zeros followed by the value.
\<close>

theorem push_new_key_getSize_is_six:
  "getSize (KString ''key1'') (snd (push (JString ''value1'') (KString ''key1'') (new_IList 5 [])))
     = Inr (JNumber (Fin 6))
   \<and> stored (snd (push (JString ''value1'') (KString ''key1'') (new_IList 5 []))) (KString ''key1'')
     = Some (replicate 5 js_zero @ [JString ''value1''])"
  by (simp add: ilist_defs Let_def)

text \<open>
  C2. The claim: under pushes alone the stored sequence is never longer than the
  capacity. The code breaks it at the first push: with capacity 3, after
  \<open>push("a", "p1")\<close> the stored sequence has 4 elements, and it still has 4 after a
  second push, which appends one element and evicts one.
\<close>

theorem push_exceeds_capacity:
  "map_option length (stored (run [Push (JString ''a'') (KString ''p1'')] (new_IList 3 [])) (KString ''p1''))
     = Some 4
   \<and> map_option length
        (stored (run [Push (JString ''a'') (KString ''p1''), Push (JString ''b'') KUndefined]
                   (new_IList 3 [])) (KString ''p1''))
     = Some 4"
  by (simp add: ilist_defs Let_def)

text \<open>
  C3. The claim: after \<open>n > c\<close> pushes of \<open>v_1..v_n\<close> to a key, \<open>get\<close> returns exactly the last
  \<open>c\<close> values. The code keeps \<open>c + 1\<close> values: with capacity 2 and the three pushes
  \<open>"v1"\<close>, \<open>"v2"\<close>, \<open>"v3"\<close> to \<open>"k"\<close>, \<open>get("k")\<close> returns the stored array
  \<open>["v1", "v2", "v3"]\<close>, not \<open>["v2", "v3"]\<close>.
\<close>

theorem get_after_three_pushes_capacity_two:
  "elements
     (snd (get (KString ''k'')
        (run [Push (JString ''v1'') (KString ''k''), Push (JString ''v2'') (KString ''k''),
              Push (JString ''v3'') (KString ''k'')] (new_IList 2 []))))
     (fst (get (KString ''k'')
        (run [Push (JString ''v1'') (KString ''k''), Push (JString ''v2'') (KString ''k''),
              Push (JString ''v3'') (KString ''k'')] (new_IList 2 []))))
   = Some [JString ''v1'', JString ''v2'', JString ''v3'']"
  by (simp add: ilist_defs Let_def)

text \<open>
  C4. With the key argument omitted, \<open>push\<close>, \<open>has\<close> and \<open>getSize\<close> take the last-used key:
  after any calls on a new instance this is the key of the most recent \<open>get\<close> or \<open>push\<close>
  (\<open>null\<close> again after \<open>clear\<close>), and the call does what the call with that key given does.
  When that key is truthy, \<open>has\<close> tells whether the key has an entry and \<open>getSize\<close> gives the
  length of its entry or 0. When the last-used key is \<open>null\<close>, or any other falsy value (\<open>undefined\<close>, the
  empty string), each of the three throws its missing-key error.
\<close>

theorem omitted_key_uses_last_key:
  "most_recent_key (run cs (new_IList n h)) = last_key cs KNull
   \<and> push v KUndefined s = push v (most_recent_key s) s
   \<and> has KUndefined s = has (most_recent_key s) s
   \<and> getSize KUndefined s = getSize (most_recent_key s) s
   \<and> (truthy_key (most_recent_key s) \<longrightarrow>
         has KUndefined s = Inr (map_of (data s) (most_recent_key s) \<noteq> None)
       \<and> getSize KUndefined s =
           (case map_of (data s) (most_recent_key s) of
              Some x \<Rightarrow> js_length x s | None \<Rightarrow> Inr (JNumber (Fin 0))))
   \<and> (\<not> truthy_key (most_recent_key s) \<longrightarrow>
         fst (push v KUndefined s) = Inl (Error ''Key must be provided or set before using set method.'')
       \<and> has KUndefined s = Inl (Error ''Key must be provided or set before using has method.'')
       \<and> getSize KUndefined s = Inl (Error ''Key must be provided or set before using getSize method.''))"
proof -
  have 1: "most_recent_key (run cs (new_IList n h)) = last_key cs KNull"
    by (simp add: mrk_run new_IList_def)
  have 2: "push v KUndefined s = push v (most_recent_key s) s"
    by (simp add: push_def default_key_def)
  have 3: "has KUndefined s = has (most_recent_key s) s"
    and 4: "getSize KUndefined s = getSize (most_recent_key s) s"
    by (simp_all add: has_def getSize_def default_key_def)
  have 5: "has KUndefined s = Inr (map_of (data s) (most_recent_key s) \<noteq> None)"
    and 6: "getSize KUndefined s =
           (case map_of (data s) (most_recent_key s) of
              Some x \<Rightarrow> js_length x s | None \<Rightarrow> Inr (JNumber (Fin 0)))"
    if "truthy_key (most_recent_key s)"
    using that by (simp_all add: has_def getSize_def default_key_def)
  have 7: "fst (push v KUndefined s) = Inl (Error ''Key must be provided or set before using set method.'')"
    and 8: "has KUndefined s = Inl (Error ''Key must be provided or set before using has method.'')"
    and 9: "getSize KUndefined s = Inl (Error ''Key must be provided or set before using getSize method.'')"
    if "\<not> truthy_key (most_recent_key s)"
    using that by (simp_all add: push_falsy has_def getSize_def default_key_def)
  from 1 2 3 4 5 6 7 8 9 show ?thesis by blast
qed

theorem omitted_key_uses_last_key_witness:
  "truthy_key (most_recent_key (run [Push (JString ''a'') (KString ''p1''), Get (KString ''p2'')] (new_IList 3 [])))
   \<and> most_recent_key (run [Push (JString ''a'') (KString ''p1''), Get (KString ''p2'')] (new_IList 3 [])) = KString ''p2''
   \<and> has KUndefined (run [Push (JString ''a'') (KString ''p1''), Get (KString ''p2'')] (new_IList 3 [])) = Inr False
   \<and> getSize KUndefined (run [Push (JString ''a'') (KString ''p1'')] (new_IList 3 [])) = Inr (JNumber (Fin 4))
   \<and> \<not> truthy_key (most_recent_key (new_IList 3 []))
   \<and> has KUndefined (new_IList 3 []) = Inl (Error ''Key must be provided or set before using has method.'')"
  using omitted_key_uses_last_key
      [where cs = "[Push (JString ''a'') (KString ''p1''), Get (KString ''p2'')]" and n = 3 and h = "[]"
         and s = "run [Push (JString ''a'') (KString ''p1''), Get (KString ''p2'')] (new_IList 3 [])"]
    omitted_key_uses_last_key
      [where cs = "[]" and n = 3 and h = "[]"
         and s = "run [Push (JString ''a'') (KString ''p1'')] (new_IList 3 [])"]
    omitted_key_uses_last_key [where cs = "[]" and n = 3 and h = "[]" and s = "new_IList 3 []"]
  by (simp add: ilist_defs Let_def)

text \<open>
  The claim as it was stated fails for the empty string: after \<open>get("")\<close> the last-used key
  is \<open>""\<close>, and the three calls without a key throw instead of using it.
\<close>

theorem omitted_key_after_get_of_empty_string:
  "most_recent_key (snd (get (KString '''') (new_IList 3 []))) = KString ''''
   \<and> has KUndefined (snd (get (KString '''') (new_IList 3 [])))
       = Inl (Error ''Key must be provided or set before using has method.'')
   \<and> getSize KUndefined (snd (get (KString '''') (new_IList 3 [])))
       = Inl (Error ''Key must be provided or set before using getSize method.'')
   \<and> fst (push (JString ''a'') KUndefined (snd (get (KString '''') (new_IList 3 []))))
       = Inl (Error ''Key must be provided or set before using set method.'')"
  by (simp add: ilist_defs Let_def)

text \<open>
  C5. For a key \<open>k\<close> with no entry, \<open>get(k)\<close> returns a new array of \<open>maxSize\<close> zeros, leaves
  the Map as it was, and sets the last-used key to \<open>k\<close>; a second \<open>get(k)\<close> returns another
  new array of zeros (the first one is untouched). Afterwards \<open>has(k)\<close> is false when \<open>k\<close> is
  truthy; when \<open>k\<close> is falsy (\<open>null\<close>, \<open>undefined\<close>, the empty string) \<open>has(k)\<close> throws the
  missing-key error.
\<close>

theorem get_absent_key:
  assumes "map_of (data s) k = None"
  shows "fst (get k s) = JArray (length (heap s))
       \<and> elements (snd (get k s)) (fst (get k s)) = Some (replicate (maxSize s) js_zero)
       \<and> data (snd (get k s)) = data s
       \<and> most_recent_key (snd (get k s)) = k
       \<and> (truthy_key k \<longrightarrow> has k (snd (get k s)) = Inr False)
       \<and> (\<not> truthy_key k \<longrightarrow>
            has k (snd (get k s)) = Inl (Error ''Key must be provided or set before using has method.''))
       \<and> fst (get k (snd (get k s))) = JArray (length (heap s) + 1)
       \<and> elements (snd (get k (snd (get k s)))) (fst (get k (snd (get k s))))
           = Some (replicate (maxSize s) js_zero)
       \<and> elements (snd (get k (snd (get k s)))) (fst (get k s))
           = Some (replicate (maxSize s) js_zero)"
proof -
  let ?s1 = "s\<lparr>heap := heap s @ [replicate (maxSize s) js_zero], most_recent_key := k\<rparr>"
  have g1: "get k s = (JArray (length (heap s)), ?s1)"
    using assms by (rule get_absent)
  have "map_of (data ?s1) k = None" using assms by simp
  then have g2: "get k ?s1 = (JArray (length (heap ?s1)),
       ?s1\<lparr>heap := heap ?s1 @ [replicate (maxSize ?s1) js_zero], most_recent_key := k\<rparr>)"
    by (rule get_absent)
  have h1: "has k ?s1 = Inr False" if "truthy_key k"
    using that assms by (simp add: has_def default_key_truthy)
  have h2: "has k ?s1 = Inl (Error ''Key must be provided or set before using has method.'')"
    if "\<not> truthy_key k"
    using that by (simp add: has_def default_key_def)
  show ?thesis
    using h1 h2 by (simp add: g1 g2 elements_def nth_append)
qed

theorem get_absent_key_witness:
  "map_of (data (new_IList 3 [])) (KString ''p1'') = None
   \<and> truthy_key (KString ''p1'')
   \<and> elements (snd (get (KString ''p1'') (new_IList 3 []))) (fst (get (KString ''p1'') (new_IList 3 [])))
       = Some (replicate 3 js_zero)
   \<and> has (KString ''p1'') (snd (get (KString ''p1'') (new_IList 3 []))) = Inr False
   \<and> most_recent_key (snd (get (KString ''p1'') (new_IList 3 []))) = KString ''p1''
   \<and> map_of (data (new_IList 3 [])) KNull = None
   \<and> \<not> truthy_key KNull
   \<and> has KNull (snd (get KNull (new_IList 3 [])))
       = Inl (Error ''Key must be provided or set before using has method.'')"
  using get_absent_key [of "new_IList 3 []" "KString ''p1''"] get_absent_key [of "new_IList 3 []" KNull]
  by (simp add: ilist_defs Let_def)

text \<open>
  The claim as it was stated fails for the empty string, a key with no entry: \<open>has("")\<close>
  after \<open>get("")\<close> throws, it does not return false.
\<close>

theorem has_after_get_of_empty_string:
  "map_of (data (new_IList 3 [])) (KString '''') = None
   \<and> has (KString '''') (snd (get (KString '''') (new_IList 3 [])))
       = Inl (Error ''Key must be provided or set before using has method.'')"
  by (simp add: ilist_defs Let_def)

text \<open>
  C6. For a truthy key \<open>k\<close>: \<open>removeData(k)\<close> returns true when \<open>k\<close> has an entry, and \<open>has(k)\<close>
  is false afterwards; it returns false and leaves the Map as it was when \<open>k\<close> has no entry;
  the entries of the other keys stay. \<open>removeData()\<close> with no argument, and \<open>removeData(k)\<close>
  with a falsy \<open>k\<close> (\<open>null\<close>, the empty string), returns \<open>undefined\<close> and leaves the Map empty.
\<close>

theorem removeData_spec:
  "(truthy_key k \<and> map_of (data s) k \<noteq> None \<longrightarrow>
      fst (removeData k s) = Some True \<and> has k (snd (removeData k s)) = Inr False)
   \<and> (truthy_key k \<and> map_of (data s) k = None \<longrightarrow>
      fst (removeData k s) = Some False \<and> data (snd (removeData k s)) = data s)
   \<and> (truthy_key k \<and> k' \<noteq> k \<longrightarrow>
      map_of (data (snd (removeData k s))) k' = map_of (data s) k')
   \<and> fst (removeData KUndefined s) = None
   \<and> map_IList (snd (removeData KUndefined s)) = []
   \<and> (\<not> truthy_key k \<longrightarrow> fst (removeData k s) = None \<and> map_IList (snd (removeData k s)) = [])"
proof -
  have 1: "fst (removeData k s) = Some True \<and> has k (snd (removeData k s)) = Inr False"
    if "truthy_key k \<and> map_of (data s) k \<noteq> None"
    using that by (simp add: removeData_truthy has_def default_key_truthy AList.delete_conv')
  have 2: "fst (removeData k s) = Some False \<and> data (snd (removeData k s)) = data s"
    if "truthy_key k \<and> map_of (data s) k = None"
    using that by (simp add: removeData_truthy map_of_eq_None_iff)
  have 3: "map_of (data (snd (removeData k s))) k' = map_of (data s) k'"
    if "truthy_key k \<and> k' \<noteq> k"
    using that by (simp add: removeData_truthy)
  have 4: "fst (removeData k s) = None \<and> map_IList (snd (removeData k s)) = []"
    if "\<not> truthy_key k" for k
    using that by (simp add: removeData_falsy map_IList_def)
  from 1 2 3 4 4[of KUndefined] show ?thesis by simp
qed

theorem removeData_spec_witness:
  "truthy_key (KString ''p1'')
   \<and> map_of (data (run [Push (JString ''a'') (KString ''p1'')] (new_IList 3 []))) (KString ''p1'') \<noteq> None
   \<and> fst (removeData (KString ''p1'') (run [Push (JString ''a'') (KString ''p1'')] (new_IList 3 []))) = Some True
   \<and> has (KString ''p1'')
        (snd (removeData (KString ''p1'') (run [Push (JString ''a'') (KString ''p1'')] (new_IList 3 []))))
      = Inr False
   \<and> truthy_key (KString ''p2'')
   \<and> map_of (data (run [Push (JString ''a'') (KString ''p1'')] (new_IList 3 []))) (KString ''p2'') = None
   \<and> fst (removeData (KString ''p2'') (run [Push (JString ''a'') (KString ''p1'')] (new_IList 3 []))) = Some False
   \<and> \<not> truthy_key KNull
   \<and> map_IList (snd (removeData KNull (run [Push (JString ''a'') (KString ''p1'')] (new_IList 3 [])))) = []"
  using removeData_spec [of "KString ''p1''" "run [Push (JString ''a'') (KString ''p1'')] (new_IList 3 [])"]
    removeData_spec [of "KString ''p2''" "run [Push (JString ''a'') (KString ''p1'')] (new_IList 3 [])"]
    removeData_spec [of KNull "run [Push (JString ''a'') (KString ''p1'')] (new_IList 3 [])"]
  by (simp add: ilist_defs Let_def)

text \<open>
  The claim as it was stated fails for the empty string, a key with no entry:
  \<open>removeData("")\<close> does not return false, it returns \<open>undefined\<close> and deletes the entry of
  \<open>"p1"\<close>.
\<close>

theorem removeData_of_empty_string_clears_all:
  "map_of (data (run [Push (JString ''a'') (KString ''p1'')] (new_IList 3 []))) (KString '''') = None
   \<and> map_IList (run [Push (JString ''a'') (KString ''p1'')] (new_IList 3 [])) = [(KString ''p1'', JArray 0)]
   \<and> fst (removeData (KString '''') (run [Push (JString ''a'') (KString ''p1'')] (new_IList 3 []))) = None
   \<and> map_IList (snd (removeData (KString '''') (run [Push (JString ''a'') (KString ''p1'')] (new_IList 3 [])))) = []"
  by (simp add: ilist_defs Let_def)

text \<open>
  C7. A push whose target (the key given, or the last-used key) is not \<open>k1\<close> leaves the
  entry of \<open>k1\<close> and the sequence stored for \<open>k1\<close> unchanged, provided the entry of \<open>k1\<close> is
  not the very array object that the target's entry is. That is so in every state reached
  from the constructor without \<open>rawSet\<close>.
\<close>

theorem push_leaves_other_keys:
  "(k1 \<noteq> default_key karg s
      \<and> (\<forall>a. map_of (data s) k1 = Some (JArray a) \<longrightarrow>
             a < length (heap s) \<and> map_of (data s) (default_key karg s) \<noteq> Some (JArray a))
    \<longrightarrow> map_of (data (snd (push v karg s))) k1 = map_of (data s) k1
        \<and> stored (snd (push v karg s)) k1 = stored s k1)
   \<and> (list_all (\<lambda>c. \<not> is_RawSet c) cs \<and> k1 \<noteq> default_key karg (run cs (new_IList n h))
    \<longrightarrow> map_of (data (snd (push v karg (run cs (new_IList n h))))) k1
          = map_of (data (run cs (new_IList n h))) k1
        \<and> stored (snd (push v karg (run cs (new_IList n h)))) k1
          = stored (run cs (new_IList n h)) k1)"
proof (intro conjI impI)
  assume a: "k1 \<noteq> default_key karg s
      \<and> (\<forall>a. map_of (data s) k1 = Some (JArray a) \<longrightarrow>
             a < length (heap s) \<and> map_of (data s) (default_key karg s) \<noteq> Some (JArray a))"
  then show "map_of (data (snd (push v karg s))) k1 = map_of (data s) k1"
    and "stored (snd (push v karg s)) k1 = stored s k1"
    using push_frame[of k1 karg s v] by simp_all
next
  let ?s = "run cs (new_IList n h)"
  assume a: "list_all (\<lambda>c. \<not> is_RawSet c) cs \<and> k1 \<noteq> default_key karg ?s"
  then have "ilist_inv n ?s" by (simp add: inv_run inv_new)
  from inv_no_alias[OF this, of k1 "default_key karg ?s"] a
  show "map_of (data (snd (push v karg ?s))) k1 = map_of (data ?s) k1"
    and "stored (snd (push v karg ?s)) k1 = stored ?s k1"
    using push_frame[of k1 karg ?s v] by simp_all
qed

theorem push_leaves_other_keys_witness:
  "list_all (\<lambda>c. \<not> is_RawSet c)
     [Push (JString ''a'') (KString ''p1''), Push (JString ''b'') KUndefined, Push (JString ''c'') (KString ''p2'')]
   \<and> KString ''p1'' \<noteq> default_key KUndefined
        (run [Push (JString ''a'') (KString ''p1''), Push (JString ''b'') KUndefined,
              Push (JString ''c'') (KString ''p2'')] (new_IList 3 []))
   \<and> stored (snd (push (JString ''d'') KUndefined
        (run [Push (JString ''a'') (KString ''p1''), Push (JString ''b'') KUndefined,
              Push (JString ''c'') (KString ''p2'')] (new_IList 3 [])))) (KString ''p1'')
      = Some [js_zero, js_zero, JString ''a'', JString ''b'']
   \<and> stored (snd (push (JString ''d'') KUndefined
        (run [Push (JString ''a'') (KString ''p1''), Push (JString ''b'') KUndefined,
              Push (JString ''c'') (KString ''p2'')] (new_IList 3 [])))) (KString ''p2'')
      = Some [js_zero, js_zero, JString ''c'', JString ''d'']"
  using push_leaves_other_keys
    [of "KString ''p1''" KUndefined
        "run [Push (JString ''a'') (KString ''p1''), Push (JString ''b'') KUndefined,
              Push (JString ''c'') (KString ''p2'')] (new_IList 3 [])"
        "JString ''d''"
        "[Push (JString ''a'') (KString ''p1''), Push (JString ''b'') KUndefined,
          Push (JString ''c'') (KString ''p2'')]" 3 "[]"]
  by (simp add: ilist_defs Let_def eval_nat_numeral)

text \<open>
  The claim as it was stated fails when \<open>rawSet\<close> has stored one array under both keys:
  after \<open>push("a", "p1")\<close> and \<open>rawSet("p2", rawGet("p1"))\<close>, the call \<open>push("b", "p2")\<close>
  changes the sequence stored for \<open>"p1"\<close>.
\<close>

theorem push_changes_aliased_key:
  "KString ''p1'' \<noteq> KString ''p2''
   \<and> rawGet (KString ''p1'') (run [Push (JString ''a'') (KString ''p1'')] (new_IList 3 [])) = JArray 0
   \<and> stored (run [Push (JString ''a'') (KString ''p1''), RawSet (KString ''p2'') (JArray 0)]
               (new_IList 3 [])) (KString ''p1'')
      = Some [js_zero, js_zero, js_zero, JString ''a'']
   \<and> stored (run [Push (JString ''a'') (KString ''p1''), RawSet (KString ''p2'') (JArray 0),
                 Push (JString ''b'') (KString ''p2'')] (new_IList 3 [])) (KString ''p1'')
      = Some [js_zero, js_zero, JString ''a'', JString ''b'']"
  by (simp add: ilist_defs Let_def eval_nat_numeral)

text \<open>
  C9. What \<open>push\<close> maintains for a key \<open>k\<close> of an instance of capacity \<open>n\<close>, in any state \<open>s\<close>
  reached from the constructor by calls none of which is a \<open>rawSet\<close> of \<open>k\<close> (raw writes to
  other keys are allowed): if \<open>k\<close> has an entry, it stores exactly \<open>n + 1\<close> elements, and
  \<open>getSize\<close> says so; a push to \<open>k\<close> (given explicitly, or as the last-used key) when it has
  no entry succeeds and stores \<open>n\<close> zeros followed by the value, untrimmed; a push to \<open>k\<close>
  when it has an entry succeeds and stores the old sequence with the value appended and
  the oldest element dropped; and once a push to \<open>k\<close> has occurred, after any further calls
  \<open>ds\<close> that neither write \<open>k\<close> raw nor remove its entry, \<open>k\<close> stores exactly \<open>n + 1\<close> elements.
\<close>

theorem push_keeps_length_capacity_plus_one:
  assumes "list_all (\<lambda>c. \<not> is_RawSet_of k c) cs"
  shows "(let s = run cs (new_IList n h) in
          (map_of (data s) k \<noteq> None \<longrightarrow>
               (\<exists>xs. stored s k = Some xs \<and> length xs = n + 1)
               \<and> getSize k s = Inr (JNumber (Fin (real (n + 1)))))
        \<and> (default_key karg s = k \<and> truthy_key k \<and> map_of (data s) k = None \<longrightarrow>
               fst (push v karg s) = Inr ()
               \<and> stored (snd (push v karg s)) k = Some (replicate n js_zero @ [v]))
        \<and> (default_key karg s = k \<and> map_of (data s) k \<noteq> None \<longrightarrow>
               fst (push v karg s) = Inr ()
               \<and> (\<exists>xs. stored s k = Some xs
                      \<and> stored (snd (push v karg s)) k = Some (tl (xs @ [v]))))
        \<and> (default_key karg s = k \<and> truthy_key k
            \<and> list_all (\<lambda>c. \<not> is_RawSet_of k c) ds \<and> list_all (\<lambda>c. \<not> is_removal_of k c) ds \<longrightarrow>
               (\<exists>xs. stored (run ds (snd (push v karg s))) k = Some xs \<and> length xs = n + 1)
               \<and> getSize k (run ds (snd (push v karg s))) = Inr (JNumber (Fin (real (n + 1))))))"
proof -
  define s where "s = run cs (new_IList n h)"
  have inv: "key_inv n k s"
    unfolding s_def using assms by (rule key_inv_run) (rule key_inv_new)
  have 4: "(\<exists>xs. stored (run ds (snd (push v karg s))) k = Some xs \<and> length xs = n + 1)
           \<and> getSize k (run ds (snd (push v karg s))) = Inr (JNumber (Fin (real (n + 1))))"
    if h: "default_key karg s = k \<and> truthy_key k
           \<and> list_all (\<lambda>c. \<not> is_RawSet_of k c) ds \<and> list_all (\<lambda>c. \<not> is_removal_of k c) ds"
  proof -
    have ok: "fst (push v karg s) = Inr ()"
      using key_inv_push_new[OF inv, of karg v] key_inv_push_existing[OF inv, of karg v] h
      by (cases "map_of (data s) k = None") simp_all
    from h have "map_of (data (snd (push v karg s))) k \<noteq> None"
      using entry_after_push[of karg s v] ok by simp
    with h have e: "map_of (data (run ds (snd (push v karg s)))) k \<noteq> None"
      by (intro entry_stays_run) simp_all
    have "key_inv n k (run ds (snd (push v karg s)))"
      using h by (intro key_inv_run key_inv_push inv) simp
    from key_inv_size[OF this e] show ?thesis .
  qed
  from key_inv_size[OF inv] key_inv_push_new[OF inv, of karg v]
    key_inv_push_existing[OF inv, of karg v] 4
  show ?thesis
    unfolding Let_def s_def[symmetric] by blast
qed

theorem push_keeps_length_capacity_plus_one_witness:
  "list_all (\<lambda>c. \<not> is_RawSet_of (KString ''p1'') c) [Get (KString ''p1'')]
   \<and> default_key KUndefined (run [Get (KString ''p1'')] (new_IList 3 [])) = KString ''p1''
   \<and> truthy_key (KString ''p1'')
   \<and> map_of (data (run [Get (KString ''p1'')] (new_IList 3 []))) (KString ''p1'') = None
   \<and> stored (snd (push (JString ''a'') KUndefined (run [Get (KString ''p1'')] (new_IList 3 []))))
        (KString ''p1'')
      = Some (replicate 3 js_zero @ [JString ''a''])
   \<and> list_all (\<lambda>c. \<not> is_RawSet_of (KString ''p1'') c)
        [RawSet (KString ''p2'') (JString ''x''), Push (JString ''b'') (KString ''p1''),
         RemoveData (KString ''p3'')]
   \<and> list_all (\<lambda>c. \<not> is_removal_of (KString ''p1'') c)
        [RawSet (KString ''p2'') (JString ''x''), Push (JString ''b'') (KString ''p1''),
         RemoveData (KString ''p3'')]
   \<and> getSize (KString ''p1'')
        (run [RawSet (KString ''p2'') (JString ''x''), Push (JString ''b'') (KString ''p1''),
              RemoveData (KString ''p3'')]
           (snd (push (JString ''a'') KUndefined (run [Get (KString ''p1'')] (new_IList 3 [])))))
      = Inr (JNumber (Fin 4))
   \<and> stored
        (run [RawSet (KString ''p2'') (JString ''x''), Push (JString ''b'') (KString ''p1''),
              RemoveData (KString ''p3'')]
           (snd (push (JString ''a'') KUndefined (run [Get (KString ''p1'')] (new_IList 3 [])))))
        (KString ''p1'')
      = Some [js_zero, js_zero, JString ''a'', JString ''b'']"
  using push_keeps_length_capacity_plus_one
    [where k = "KString ''p1''" and cs = "[Get (KString ''p1'')]"
       and n = 3 and h = "[]" and karg = KUndefined and v = "JString ''a''"
       and ds = "[RawSet (KString ''p2'') (JString ''x''), Push (JString ''b'') (KString ''p1''),
                  RemoveData (KString ''p3'')]"]
  by (simp add: ilist_defs Let_def eval_nat_numeral)

text \<open>
  C10. \<open>removeData()\<close> with no argument empties the Map and leaves the last-used key as it
  was, whereas \<open>clear()\<close> also resets it to \<open>null\<close> (a push without a key then throws). So
  after \<open>removeData()\<close>, when the last-used key is truthy, a push without a key succeeds
  and creates the one entry of the Map, under the last-used key: \<open>maxSize\<close> zeros and the
  value. In particular a push without a key that succeeds before \<open>removeData()\<close> succeeds
  after it. When the last-used key is \<open>null\<close> or any other falsy value, the push without a
  key throws the missing-key error after \<open>removeData()\<close>.
\<close>

theorem removeData_all_keeps_last_key:
  "map_IList (snd (removeData KUndefined s)) = []
   \<and> most_recent_key (snd (removeData KUndefined s)) = most_recent_key s
   \<and> map_IList (clear s) = []
   \<and> most_recent_key (clear s) = KNull
   \<and> fst (push v KUndefined (clear s)) = Inl (Error ''Key must be provided or set before using set method.'')
   \<and> (truthy_key (most_recent_key s) \<longrightarrow>
         fst (push v KUndefined (snd (removeData KUndefined s))) = Inr ()
       \<and> map_IList (snd (push v KUndefined (snd (removeData KUndefined s))))
           = [(most_recent_key s, JArray (length (heap s)))]
       \<and> stored (snd (push v KUndefined (snd (removeData KUndefined s)))) (most_recent_key s)
           = Some (replicate (maxSize s) js_zero @ [v])
       \<and> most_recent_key (snd (push v KUndefined (snd (removeData KUndefined s)))) = most_recent_key s)
   \<and> (fst (push v KUndefined s) = Inr () \<longrightarrow>
         fst (push v KUndefined (snd (removeData KUndefined s))) = Inr ())
   \<and> (\<not> truthy_key (most_recent_key s) \<longrightarrow>
         fst (push v KUndefined (snd (removeData KUndefined s)))
           = Inl (Error ''Key must be provided or set before using set method.'')
       \<and> map_IList (snd (push v KUndefined (snd (removeData KUndefined s)))) = [])"
proof -
  let ?s1 = "s\<lparr>data := []\<rparr>"
  have r: "removeData KUndefined s = (None, ?s1)"
    by (simp add: removeData_falsy)
  have c: "fst (push v KUndefined (clear s)) = Inl (Error ''Key must be provided or set before using set method.'')"
    by (simp add: push_falsy clear_def default_key_def)
  have p: "push v KUndefined ?s1 =
      (Inr (), ?s1\<lparr>heap := heap ?s1 @ [replicate (maxSize ?s1) js_zero @ [v]],
                data := AList.update (default_key KUndefined ?s1) (JArray (length (heap ?s1))) (data ?s1),
                most_recent_key := default_key KUndefined ?s1\<rparr>)"
    if "truthy_key (most_recent_key s)"
    using that by (intro push_new) (simp_all add: default_key_def)
  have t: "truthy_key (most_recent_key s)" if "fst (push v KUndefined s) = Inr ()"
  proof (rule ccontr)
    assume "\<not> truthy_key (most_recent_key s)"
    then have "fst (push v KUndefined s)
        = Inl (Error ''Key must be provided or set before using set method.'')"
      by (simp add: push_falsy default_key_def)
    with that show False by simp
  qed
  have f: "push v KUndefined ?s1
      = (Inl (Error ''Key must be provided or set before using set method.''),
         ?s1\<lparr>most_recent_key := default_key KUndefined ?s1\<rparr>)"
    if "\<not> truthy_key (most_recent_key s)"
    using that by (intro push_falsy) (simp add: default_key_def)
  show ?thesis
    using c p t f
    by (auto simp add: r map_IList_def clear_def default_key_def stored_def elements_def)
qed

theorem removeData_all_keeps_last_key_witness:
  "truthy_key (most_recent_key (run [Push (JString ''a'') (KString ''p1'')] (new_IList 3 [])))
   \<and> most_recent_key (snd (removeData KUndefined (run [Push (JString ''a'') (KString ''p1'')] (new_IList 3 []))))
       = KString ''p1''
   \<and> fst (push (JString ''b'') KUndefined
        (snd (removeData KUndefined (run [Push (JString ''a'') (KString ''p1'')] (new_IList 3 []))))) = Inr ()
   \<and> stored (snd (push (JString ''b'') KUndefined
        (snd (removeData KUndefined (run [Push (JString ''a'') (KString ''p1'')] (new_IList 3 []))))))
        (KString ''p1'')
       = Some [js_zero, js_zero, js_zero, JString ''b'']"
  using removeData_all_keeps_last_key
    [of "run [Push (JString ''a'') (KString ''p1'')] (new_IList 3 [])" "JString ''b''"]
  by (simp add: ilist_defs Let_def eval_nat_numeral)

text \<open>
  The claim as it was stated fails when the last-used key is the empty string: after
  \<open>get("")\<close> and \<open>removeData()\<close> the last-used key is still \<open>""\<close>, and the push without a key
  throws and creates no entry.
\<close>

theorem removeData_then_push_after_get_of_empty_string:
  "most_recent_key (snd (removeData KUndefined (snd (get (KString '''') (new_IList 3 []))))) = KString ''''
   \<and> map_IList (snd (removeData KUndefined (snd (get (KString '''') (new_IList 3 []))))) = []
   \<and> fst (push (JString ''a'') KUndefined
        (snd (removeData KUndefined (snd (get (KString '''') (new_IList 3 []))))))
      = Inl (Error ''Key must be provided or set before using set method.'')
   \<and> map_IList (snd (push (JString ''a'') KUndefined
        (snd (removeData KUndefined (snd (get (KString '''') (new_IList 3 []))))))) = []"
  by (simp add: ilist_defs Let_def)

section \<open>Properties of MathUtils.clamp\<close>

lemmas num_defs = js_gt_def js_le_def js_eq_def Math_max_def Math_min_def

lemma clamp_in_range:
  assumes "v \<noteq> NaN" "lo \<noteq> NaN" "hi \<noteq> NaN" "\<not> js_gt lo hi"
  shows "js_le lo (Math_max lo (Math_min hi v))" 
    and "js_le (Math_max lo (Math_min hi v)) hi"
    and "js_lt v lo \<longrightarrow> Math_max lo (Math_min hi v) = lo"
    and "js_lt hi v \<longrightarrow> js_eq (Math_max lo (Math_min hi v)) hi"
    and "js_le lo v \<and> js_le v hi \<longrightarrow> js_eq (Math_max lo (Math_min hi v)) v"
  using assms by (cases v; cases lo; cases hi; simp add: num_defs)+

text \<open>
  C8. \<open>clamp(value, min, max)\<close> throws (a TypeError) when one of the arguments is not a
  number, throws when one of them is NaN, throws when \<open>min > max\<close>, and returns
  \<open>Math.max(min, Math.min(max, value))\<close> otherwise: a number between \<open>min\<close> and \<open>max\<close>,
  which is \<open>min\<close> when \<open>value < min\<close>, equals \<open>max\<close> when \<open>value > max\<close> and equals \<open>value\<close>
  when \<open>value\<close> lies in the range.
\<close>

theorem clamp_spec:
  "(js_typeof val \<noteq> ''number'' \<or> js_typeof mn \<noteq> ''number'' \<or> js_typeof mx \<noteq> ''number''
      \<longrightarrow> clamp val mn mx = Inl (TypeError ''All parameters must be numbers.''))
   \<and> (v = NaN \<or> lo = NaN \<or> hi = NaN
      \<longrightarrow> clamp (JNumber v) (JNumber lo) (JNumber hi) = Inl (Error ''Parameters cannot be NaN.''))
   \<and> (v \<noteq> NaN \<and> lo \<noteq> NaN \<and> hi \<noteq> NaN \<and> js_gt lo hi
      \<longrightarrow> clamp (JNumber v) (JNumber lo) (JNumber hi)
            = Inl (Error ''Minimum value cannot be greater than maximum value.''))
   \<and> (v \<noteq> NaN \<and> lo \<noteq> NaN \<and> hi \<noteq> NaN \<and> \<not> js_gt lo hi
      \<longrightarrow> clamp (JNumber v) (JNumber lo) (JNumber hi) = Inr (JNumber (Math_max lo (Math_min hi v)))
          \<and> js_le lo (Math_max lo (Math_min hi v))
          \<and> js_le (Math_max lo (Math_min hi v)) hi
          \<and> (js_lt v lo \<longrightarrow> Math_max lo (Math_min hi v) = lo)
          \<and> (js_lt hi v \<longrightarrow> js_eq (Math_max lo (Math_min hi v)) hi)
          \<and> (js_le lo v \<and> js_le v hi \<longrightarrow> js_eq (Math_max lo (Math_min hi v)) v))"
proof -
  have 1: "clamp val mn mx = Inl (TypeError ''All parameters must be numbers.'')"
    if "js_typeof val \<noteq> ''number'' \<or> js_typeof mn \<noteq> ''number'' \<or> js_typeof mx \<noteq> ''number''"
    using that by (auto simp add: clamp_def)
  have 2: "clamp (JNumber v) (JNumber lo) (JNumber hi) = Inl (Error ''Parameters cannot be NaN.'')"
    if "v = NaN \<or> lo = NaN \<or> hi = NaN"
    using that by (auto simp add: clamp_def js_isNaN_def)
  have 3: "clamp (JNumber v) (JNumber lo) (JNumber hi)
            = Inl (Error ''Minimum value cannot be greater than maximum value.'')"
    if "v \<noteq> NaN \<and> lo \<noteq> NaN \<and> hi \<noteq> NaN \<and> js_gt lo hi"
    using that by (simp add: clamp_def js_isNaN_def)
  have 4: "clamp (JNumber v) (JNumber lo) (JNumber hi) = Inr (JNumber (Math_max lo (Math_min hi v)))"
    if "v \<noteq> NaN \<and> lo \<noteq> NaN \<and> hi \<noteq> NaN \<and> \<not> js_gt lo hi"
    using that by (simp add: clamp_def js_isNaN_def)
  from 1 2 3 4 clamp_in_range[of v lo hi] show ?thesis by blast
qed

theorem clamp_spec_witness:
  "js_typeof (JString ''5'') \<noteq> ''number''
   \<and> clamp (JString ''5'') (JNumber (Fin 1)) (JNumber (Fin 10)) = Inl (TypeError ''All parameters must be numbers.'')
   \<and> clamp (JNumber (Fin 11)) (JNumber (Fin 1)) (JNumber NaN) = Inl (Error ''Parameters cannot be NaN.'')
   \<and> js_gt (Fin 10) (Fin 1)
   \<and> clamp (JNumber (Fin 11)) (JNumber (Fin 10)) (JNumber (Fin 1))
       = Inl (Error ''Minimum value cannot be greater than maximum value.'')
   \<and> \<not> js_gt (Fin 1) (Fin 10) \<and> js_lt (Fin 10) (Fin 11)
   \<and> clamp (JNumber (Fin 11)) (JNumber (Fin 1)) (JNumber (Fin 10)) = Inr (JNumber (Fin 10))
   \<and> clamp (JNumber (Fin (-5))) (JNumber (Fin 0)) (JNumber (Fin 100)) = Inr (JNumber (Fin 0))"
  using clamp_spec[of "JString ''5''" "JNumber (Fin 1)" "JNumber (Fin 10)" "Fin 11" "Fin 1" NaN]
    clamp_spec[of JNull JNull JNull "Fin 11" "Fin 10" "Fin 1"]
    clamp_spec[of JNull JNull JNull "Fin 11" "Fin 1" "Fin 10"]
    clamp_spec[of JNull JNull JNull "Fin (-5)" "Fin 0" "Fin 100"]
  by (simp add: num_defs)

end
